theory Spec2Isabelle
  imports Complex_Main "HOL-Library.Word"
begin

unbundle bit_operations_syntax

section \<open>Machine types and byte order\<close>

type_synonym u8 = "8 word"
type_synonym u16 = "16 word"
type_synonym u32 = "32 word"

text \<open>
  \<open>htons\<close> and \<open>ntohs\<close> depend on the byte order of the host the program is compiled
  for: on a little-endian host they swap the two bytes of a 16-bit value, on a big-endian
  host they are the identity. The host is a parameter of every definition that touches
  a 16-bit field.
\<close>

datatype endian = LittleEndian | BigEndian

definition bswap16 :: "u16 \<Rightarrow> u16" where
  "bswap16 x = push_bit 8 x OR drop_bit 8 x"

definition htons :: "endian \<Rightarrow> u16 \<Rightarrow> u16" where
  "htons e x = (case e of LittleEndian \<Rightarrow> bswap16 x | BigEndian \<Rightarrow> x)"

definition ntohs :: "endian \<Rightarrow> u16 \<Rightarrow> u16" where
  "ntohs e x = (case e of LittleEndian \<Rightarrow> bswap16 x | BigEndian \<Rightarrow> x)"

text \<open>
  A \<open>uint16_t\<close> read from, or written to, two consecutive bytes of memory in the
  host's order (what dereferencing a \<open>uint16_t*\<close> and \<open>memcpy\<close> of a \<open>uint16_t\<close> do).
  \<open>b0\<close> is the byte at the lower address.
\<close>

definition load_u16 :: "endian \<Rightarrow> u8 \<Rightarrow> u8 \<Rightarrow> u16" where
  "load_u16 e b0 b1 =
     (case e of
        LittleEndian \<Rightarrow> push_bit 8 (ucast b1) OR ucast b0
      | BigEndian \<Rightarrow> push_bit 8 (ucast b0) OR ucast b1)"

definition store_u16 :: "endian \<Rightarrow> u16 \<Rightarrow> u8 list" where
  "store_u16 e x =
     (case e of
        LittleEndian \<Rightarrow> [ucast x, ucast (drop_bit 8 x)]
      | BigEndian \<Rightarrow> [ucast (drop_bit 8 x), ucast x])"

text \<open>The 16-bit value that two bytes denote on the wire (network order, high byte first).\<close>

definition be16 :: "u8 \<Rightarrow> u8 \<Rightarrow> u16" where
  "be16 hi lo = push_bit 8 (ucast hi) OR ucast lo"

section \<open>The checksum engine\<close>

text \<open>
  \<open>words[i]\<close> of \<open>icmp_checksum\<close>: the buffer seen through a \<open>const uint16_t*\<close>.
\<close>

definition word_at :: "endian \<Rightarrow> u8 list \<Rightarrow> nat \<Rightarrow> u16" where
  "word_at e data i = load_u16 e (data ! (2 * i)) (data ! (2 * i + 1))"

text \<open>
  The first loop of \<open>icmp_checksum\<close>, \<open>for (i = 0; i < length / 2; ++i) sum += ntohs(words[i])\<close>,
  from index \<open>i\<close> up to the bound \<open>n\<close>. The accumulator \<open>acc\<close> is the source's \<open>uint32_t sum\<close>, whose
  addition wraps around.
\<close>

function sum_words :: "endian \<Rightarrow> u8 list \<Rightarrow> nat \<Rightarrow> nat \<Rightarrow> u32 \<Rightarrow> u32" where
  "sum_words e data i n acc =
     (if i < n then sum_words e data (Suc i) n (acc + ucast (ntohs e (word_at e data i)))
      else acc)"
  by pat_completeness auto
termination
  by (relation "measure (\<lambda>(e, data, i, n, acc). n - i)") auto

declare sum_words.simps [simp del]

text \<open>
  The carry fold, \<open>while (sum >> 16) sum = (sum & 0xFFFF) + (sum >> 16)\<close>.
\<close>

function fold_carry :: "u32 \<Rightarrow> u32" where
  "fold_carry acc =
     (if drop_bit 16 acc \<noteq> 0 then fold_carry ((acc AND 0xFFFF) + drop_bit 16 acc) else acc)"
  by pat_completeness auto
termination
proof (relation "measure unat")
  show "wf (measure (unat :: u32 \<Rightarrow> nat))" by simp
next
  fix acc :: u32
  assume nz: "drop_bit 16 acc \<noteq> 0"
  define n q r where "n = unat acc" and "q = n div 65536" and "r = n mod 65536"
  have m: "acc AND 0xFFFF = take_bit 16 acc"
    using take_bit_eq_mask [of 16 acc] by (simp add: mask_numeral)
  have l: "unat (take_bit 16 acc) = r"
    unfolding r_def n_def by (simp add: take_bit_eq_mod unat_mod)
  have h: "unat (drop_bit 16 acc) = q"
    unfolding q_def n_def by (simp add: drop_bit_eq_div unat_div)
  have n: "n = 65536 * q + r"
    unfolding q_def r_def by (rule mult_div_mod_eq [symmetric])
  have b: "n < 4294967296"
    unfolding n_def using unsigned_less [of acc, where 'a = nat] by simp
  have "unat (drop_bit 16 acc) \<noteq> 0"
    using nz by (simp add: unat_eq_0)
  then have q0: "q \<noteq> 0"
    unfolding h .
  have "unat (take_bit 16 acc + drop_bit 16 acc) = (r + q) mod 4294967296"
    unfolding unat_word_ariths l h by simp
  also have "\<dots> = r + q"
    using n b by simp
  also have "\<dots> < n"
    using n q0 by linarith
  finally have "unat ((acc AND 0xFFFF) + drop_bit 16 acc) < unat acc"
    unfolding m n_def .
  then show "((acc AND 0xFFFF) + drop_bit 16 acc, acc) \<in> measure unat"
    by (simp only: in_measure)
qed

declare fold_carry.simps [simp del]

definition icmp_checksum :: "endian \<Rightarrow> u8 list \<Rightarrow> u16" where
  "icmp_checksum e data =
     (let len = length data;
          acc = sum_words e data 0 (len div 2) 0;
          acc = (if len mod 2 \<noteq> 0
                 then acc + push_bit 8 (ucast (data ! (len - 1)))
                 else acc);
          acc = fold_carry acc
      in htons e (ucast (NOT acc)))"

section \<open>The packet codec\<close>

text \<open>
  \<open>struct icmphdr\<close> of \<open>netinet/ip_icmp.h\<close>, with the \<open>echo\<close> member of its union
  \<open>un\<close>. The 16-bit fields hold what the host reads from memory, so a field filled
  from the wire holds the value in network byte order.
\<close>

record icmphdr =
  type :: u8
  code :: u8
  checksum :: u16
  un_echo_id :: u16
  un_echo_sequence :: u16

definition ICMP_ECHO :: u8 where "ICMP_ECHO = 8"
definition ICMP_ECHOREPLY :: u8 where "ICMP_ECHOREPLY = 0"
definition sizeof_icmphdr :: nat where "sizeof_icmphdr = 8"

text \<open>The eight bytes of a header in memory, and a header read from memory at an offset.\<close>

definition icmphdr_bytes :: "endian \<Rightarrow> icmphdr \<Rightarrow> u8 list" where
  "icmphdr_bytes e h =
     [type h, code h] @ store_u16 e (checksum h)
       @ store_u16 e (un_echo_id h) @ store_u16 e (un_echo_sequence h)"

definition icmphdr_at :: "endian \<Rightarrow> u8 list \<Rightarrow> nat \<Rightarrow> icmphdr" where
  "icmphdr_at e buf off =
     \<lparr>type = buf ! off,
      code = buf ! (off + 1),
      checksum = load_u16 e (buf ! (off + 2)) (buf ! (off + 3)),
      un_echo_id = load_u16 e (buf ! (off + 4)) (buf ! (off + 5)),
      un_echo_sequence = load_u16 e (buf ! (off + 6)) (buf ! (off + 7))\<rparr>"

text \<open>\<open>memcpy(dst + off, src, n)\<close> with \<open>n\<close> the length of \<open>src\<close>.\<close>

definition memcpy :: "u8 list \<Rightarrow> nat \<Rightarrow> u8 list \<Rightarrow> u8 list" where
  "memcpy dst off src = take off dst @ src @ drop (off + length src) dst"

definition string_bytes :: "string \<Rightarrow> u8 list" where
  "string_bytes s = map of_char s"

definition create_icmp_echo_request :: "endian \<Rightarrow> u16 \<Rightarrow> u16 \<Rightarrow> string \<Rightarrow> u8 list" where
  "create_icmp_echo_request e ident seqno payload =
     (let header = \<lparr>type = 0, code = 0, checksum = 0, un_echo_id = 0, un_echo_sequence = 0\<rparr>;
          header = header\<lparr>type := ICMP_ECHO\<rparr>;
          header = header\<lparr>code := 0\<rparr>;
          header = header\<lparr>un_echo_id := htons e ident\<rparr>;
          header = header\<lparr>un_echo_sequence := htons e seqno\<rparr>;
          header = header\<lparr>checksum := 0\<rparr>;
          packet = replicate (sizeof_icmphdr + length payload) 0;
          packet = memcpy packet 0 (icmphdr_bytes e header);
          packet = (if payload \<noteq> [] then memcpy packet sizeof_icmphdr (string_bytes payload)
                    else packet);
          checksum = icmp_checksum e packet;
          packet = memcpy packet 2 (store_u16 e checksum)
      in packet)"

text \<open>
  \<open>get_ip_header_length\<close> reads \<open>ip_packet[0]\<close>; the product is computed in \<open>int\<close> and is at
  most 60, so the conversion to \<open>size_t\<close> loses nothing. The function is given no length:
  it is only meaningful on a buffer that has a first byte, and \<open>send_ping\<close> calls it on
  its array of \<open>BUFFER_SIZE\<close> bytes.
\<close>

definition get_ip_header_length :: "u8 list \<Rightarrow> nat" where
  "get_ip_header_length ip_packet =
     (let ihl_words = (ip_packet ! 0) AND 0x0F in unat ihl_words * 4)"

definition validate_icmp_response :: "endian \<Rightarrow> icmphdr \<Rightarrow> u16 \<Rightarrow> u16 \<Rightarrow> bool" where
  "validate_icmp_response e icmp_hdr expected_id expected_seq =
     (if type icmp_hdr \<noteq> ICMP_ECHOREPLY \<or> code icmp_hdr \<noteq> 0 then False
      else ntohs e (un_echo_id icmp_hdr) = expected_id
           \<and> ntohs e (un_echo_sequence icmp_hdr) = expected_seq)"

section \<open>The exchange coordinator\<close>

definition BUFFER_SIZE :: nat where "BUFFER_SIZE = 1500"
definition TIMEOUT_SECONDS :: int where "TIMEOUT_SECONDS = 2"
definition DEFAULT_SEQUENCE :: u16 where "DEFAULT_SEQUENCE = 1"

text \<open>
  \<open>rtt_ms\<close> is a \<open>double\<close> in the source; it is a real number here, so the rounding of
  the one floating-point division is not modelled. \<open>bytes_received\<close> and \<open>ttl\<close> are the
  values of C \<open>int\<close>s.
\<close>

record PingResult =
  success :: bool
  rtt_ms :: real
  from_addr :: string
  bytes_received :: int
  ttl :: int
  sequence :: u16
  "identifier" :: u16

subsection \<open>Library functions\<close>

text \<open>\<open>std::to_string\<close> on a non-negative integer: its decimal digits.\<close>

definition digit_char :: "nat \<Rightarrow> char" where
  "digit_char d = ''0123456789'' ! d"

function to_string :: "nat \<Rightarrow> string" where
  "to_string n =
     (if n < 10 then [digit_char n] else to_string (n div 10) @ [digit_char (n mod 10)])"
  by pat_completeness auto
termination
  by (relation "measure id") auto

declare to_string.simps [simp del]

text \<open>
  An IPv4 address as the four bytes of \<open>sin_addr\<close> in memory, and \<open>inet_ntop\<close> for
  \<open>AF_INET\<close>, which prints them in dotted-decimal form.
\<close>

type_synonym in_addr = "u8 \<times> u8 \<times> u8 \<times> u8"

definition inet_ntop :: "in_addr \<Rightarrow> string" where
  "inet_ntop a =
     (case a of (a0, a1, a2, a3) \<Rightarrow>
        to_string (unat a0) @ ''.'' @ to_string (unat a1) @ ''.''
          @ to_string (unat a2) @ ''.'' @ to_string (unat a3))"

text \<open>
  \<open>duration_cast<microseconds>\<close> of a difference of two \<open>steady_clock\<close> readings, which
  count nanoseconds: an integer division that truncates towards zero.
\<close>

definition to_microseconds :: "int \<Rightarrow> int" where
  "to_microseconds ns = sgn ns * (\<bar>ns\<bar> div 1000)"

text \<open>
  The conversion of an integer value to a 32-bit \<open>int\<close>, as the assignment to
  \<open>bytes_received\<close> does with the \<open>size_t\<close> difference: the value is reduced modulo
  \<open>2 ^ 32\<close> into the signed range (what GCC and Clang do, and C++20 prescribes).
\<close>

definition to_int32 :: "int \<Rightarrow> int" where
  "to_int32 x = sint (word_of_int x :: 32 word)"

subsection \<open>The socket and the clock\<close>

text \<open>
  The raw socket, the kernel behind it and the monotonic clock are outside the program.
  They are a \<open>world\<close>: for each kind of call, how many calls have been made, and what the
  \<open>k\<close>-th call will answer. \<open>sent_packets\<close> keeps what was handed to \<open>sendto\<close>, and
  \<open>stack_bytes\<close> is what the memory of an uninitialised local array holds.
\<close>

datatype recv_outcome = RecvError | RecvDatagram "u8 list" in_addr

record world =
  clock_calls :: nat
  clock_ns :: "nat \<Rightarrow> int"
  sendto_calls :: nat
  sendto_ret :: "nat \<Rightarrow> int"
  sent_packets :: "(in_addr \<times> u8 list) list"
  select_calls :: nat
  select_ret :: "nat \<Rightarrow> int"
  recvfrom_calls :: nat
  recvfrom_ret :: "nat \<Rightarrow> recv_outcome"
  stack_bytes :: "nat \<Rightarrow> u8"

definition steady_clock_now :: "world \<Rightarrow> int \<times> world" where
  "steady_clock_now w = (clock_ns w (clock_calls w), w\<lparr>clock_calls := Suc (clock_calls w)\<rparr>)"

definition sys_sendto :: "world \<Rightarrow> int \<Rightarrow> u8 list \<Rightarrow> in_addr \<Rightarrow> int \<times> world" where
  "sys_sendto w sock packet dest =
     (sendto_ret w (sendto_calls w),
      w\<lparr>sendto_calls := Suc (sendto_calls w),
        sent_packets := sent_packets w @ [(dest, packet)]\<rparr>)"

text \<open>
  \<open>fd_set\<close> is an array of \<open>FD_SETSIZE\<close> bits. \<open>FD_ZERO\<close> clears them all. \<open>FD_SET(fd, &set)\<close>
  sets bit \<open>fd\<close> and does not check it: for a descriptor below 0 or from \<open>FD_SETSIZE\<close> on
  it writes outside the set, into whatever lies next to it on the stack, and the behaviour
  of the program is undefined from there. The model stops with a \<open>fault\<close> at that point.
\<close>

datatype fault = OutOfBounds

definition FD_SETSIZE :: int where "FD_SETSIZE = 1024"

type_synonym fd_set = "bool list"

definition FD_ZERO :: fd_set where
  "FD_ZERO = replicate (nat FD_SETSIZE) False"

definition FD_SET :: "int \<Rightarrow> fd_set \<Rightarrow> fault + fd_set" where
  "FD_SET fd fds =
     (if 0 \<le> fd \<and> fd < FD_SETSIZE then Inr (fds[nat fd := True]) else Inl OutOfBounds)"

text \<open>
  \<open>select(nfds, &readfds, nullptr, nullptr, &timeout)\<close>: what it answers is the kernel's
  matter, whatever the set and the timeout are.
\<close>

definition sys_select :: "world \<Rightarrow> int \<Rightarrow> fd_set \<Rightarrow> int \<Rightarrow> int \<times> world" where
  "sys_select w nfds readfds timeout_s =
     (select_ret w (select_calls w), w\<lparr>select_calls := Suc (select_calls w)\<rparr>)"

text \<open>
  \<open>recvfrom\<close> into a local array of \<open>len\<close> bytes that was not initialised: it answers
  the return value, the array after the call and the sender's address. A datagram longer
  than the array is cut to \<open>len\<close> bytes; the bytes of the array after the datagram keep
  what the stack held. On an error the address stays zero, as \<open>from{}\<close> made it.
\<close>

definition recv_buffer :: "(nat \<Rightarrow> u8) \<Rightarrow> u8 list \<Rightarrow> nat \<Rightarrow> u8 list" where
  "recv_buffer stack dgram len =
     map (\<lambda>i. if i < length dgram then dgram ! i else stack i) [0..<len]"

definition sys_recvfrom :: "world \<Rightarrow> int \<Rightarrow> nat \<Rightarrow> (int \<times> u8 list \<times> in_addr) \<times> world" where
  "sys_recvfrom w sock len =
     (let w' = w\<lparr>recvfrom_calls := Suc (recvfrom_calls w)\<rparr> in
      case recvfrom_ret w (recvfrom_calls w) of
        RecvError \<Rightarrow> ((- 1, recv_buffer (stack_bytes w) [] len, (0, 0, 0, 0)), w')
      | RecvDatagram dgram src \<Rightarrow>
          ((int (min (length dgram) len), recv_buffer (stack_bytes w) dgram len, src), w'))"

subsection \<open>One echo exchange\<close>

text \<open>
  \<open>send_ping\<close>, statement by statement. What it prints on \<open>std::cout\<close> and \<open>std::cerr\<close>
  is left out. The call returns a result and leaves a world behind, unless \<open>FD_SET\<close> wrote
  outside \<open>read_set\<close>; \<open>result_of\<close> is the \<open>PingResult\<close> the caller gets, if any.
\<close>

definition send_ping :: "endian \<Rightarrow> world \<Rightarrow> int \<Rightarrow> in_addr \<Rightarrow> u16 \<Rightarrow> u16 \<Rightarrow> fault + PingResult \<times> world" where
  "send_ping e w sock dest ident seqno =
     (let result = \<lparr>success = False, rtt_ms = 0, from_addr = [], bytes_received = 0,
                     ttl = 0, sequence = 0, identifier = 0\<rparr>;
          result = result\<lparr>sequence := seqno\<rparr>;
          result = result\<lparr>identifier := ident\<rparr>;
          (send_time, w) = steady_clock_now w;
          payload = ''PING_PAYLOAD_'' @ to_string (unat seqno);
          packet = create_icmp_echo_request e ident seqno payload;
          (sent, w) = sys_sendto w sock packet dest
      in if sent \<le> 0 then Inr (result, w)
      else
        let read_set = FD_ZERO
        in case FD_SET sock read_set of
          Inl f \<Rightarrow> Inl f
        | Inr read_set \<Rightarrow>
            let (ready, w) = sys_select w (sock + 1) read_set TIMEOUT_SECONDS
            in if ready \<le> 0 then Inr (result, w)
            else
              let ((received, buffer, from), w) = sys_recvfrom w sock BUFFER_SIZE
              in if received \<le> 0 then Inr (result, w)
              else
                let (recv_time, w) = steady_clock_now w;
                    ip_header_len = get_ip_header_length buffer
                in if received < int (ip_header_len + sizeof_icmphdr) then Inr (result, w)
                else
                  let icmp_response = icmphdr_at e buffer ip_header_len
                  in if \<not> validate_icmp_response e icmp_response ident seqno
                     then Inr (result, w)
                  else
                    let result = result\<lparr>success := True\<rparr>;
                        result = result\<lparr>rtt_ms :=
                          real_of_int (to_microseconds (recv_time - send_time)) / 1000\<rparr>;
                        result = result\<lparr>from_addr := inet_ntop from\<rparr>;
                        result = result\<lparr>bytes_received :=
                          to_int32 (received - int ip_header_len - int sizeof_icmphdr)\<rparr>;
                        result = result\<lparr>ttl := uint (buffer ! 8)\<rparr>
                    in Inr (result, w))"

definition result_of :: "fault + PingResult \<times> world \<Rightarrow> PingResult option" where
  "result_of x = (case x of Inl f \<Rightarrow> None | Inr (r, w) \<Rightarrow> Some r)"

section \<open>Example inputs\<close>

text \<open>
  Concrete inputs on which the theorems below are instantiated. \<open>echo_reply_header\<close> is
  an Echo Reply header for identifier 1234 and sequence 1 as a little-endian host holds it
  in memory. \<open>echo_reply_datagram\<close> is an IPv4 datagram of 42 bytes: a 20-byte IP header
  with TTL 64, an Echo Reply for identifier 777 and sequence 5, and 14 bytes of payload.
  \<open>odd_buffer\<close> is a buffer of nine bytes with something in its checksum field.
  In \<open>quiet_world\<close> the packet is sent and no reply ever arrives, so \<open>select\<close> times
  out; in \<open>loopback_world\<close> the reply datagram is waiting to be received.
\<close>

definition echo_reply_header :: icmphdr where
  "echo_reply_header =
     \<lparr>type = 0, code = 0, checksum = 0, un_echo_id = 0xD204, un_echo_sequence = 0x0100\<rparr>"

definition echo_reply_datagram :: "u8 list" where
  "echo_reply_datagram =
     [0x45, 0, 0, 42, 0, 0, 0, 0, 64, 1, 0, 0, 127, 0, 0, 1, 127, 0, 0, 1,
      0, 0, 0, 0, 3, 9, 0, 5,
      80, 73, 78, 71, 95, 80, 65, 89, 76, 79, 65, 68, 95, 53]"

definition odd_buffer :: "u8 list" where
  "odd_buffer = [8, 0, 0xAB, 0xCD, 4, 210, 0, 1, 0x50]"

definition quiet_world :: world where
  "quiet_world =
     \<lparr>clock_calls = 0, clock_ns = (\<lambda>k. 1500000 * int k),
      sendto_calls = 0, sendto_ret = (\<lambda>k. 22), sent_packets = [],
      select_calls = 0, select_ret = (\<lambda>k. 0),
      recvfrom_calls = 0, recvfrom_ret = (\<lambda>k. RecvError),
      stack_bytes = (\<lambda>i. 0)\<rparr>"

definition loopback_world :: world where
  "loopback_world =
     quiet_world\<lparr>select_ret := (\<lambda>k. 1),
       recvfrom_ret := (\<lambda>k. RecvDatagram echo_reply_datagram (127, 0, 0, 1))\<rparr>"

section \<open>Byte order: basic facts\<close>

lemma bswap16_bswap16: "bswap16 (bswap16 x) = x"
  unfolding bswap16_def
  by (rule bit_word_eqI) (auto simp: bit_simps dest: bit_imp_le_length)

lemma bswap16_load:
  "bswap16 (push_bit 8 (ucast (b1 :: u8)) OR ucast (b0 :: u8)) = push_bit 8 (ucast b0) OR ucast b1"
  unfolding bswap16_def
  by (rule bit_word_eqI) (auto simp: bit_simps dest: bit_imp_le_length)

lemma bswap16_zero: "bswap16 0 = 0"
  by (simp add: bswap16_def)

lemma bswap16_ones: "bswap16 (- 1) = 0xFFFF"
proof -
  have "(- 1 :: u16) = 0xFFFF" by simp
  then show ?thesis by (simp add: bswap16_def)
qed

lemma ntohs_htons: "ntohs e (htons e x) = x"
  by (cases e) (simp_all add: ntohs_def htons_def bswap16_bswap16)

lemma htons_ntohs: "htons e (ntohs e x) = x"
  by (cases e) (simp_all add: ntohs_def htons_def bswap16_bswap16)

lemma ntohs_inject: "ntohs e x = ntohs e y \<longleftrightarrow> x = y"
  by (metis htons_ntohs)

lemma htons_zero: "htons e 0 = 0"
  by (cases e) (simp_all add: htons_def bswap16_zero)

lemma ntohs_load_u16: "ntohs e (load_u16 e b0 b1) = be16 b0 b1"
  by (cases e) (simp_all add: ntohs_def load_u16_def be16_def bswap16_load)

lemma be16_split: "be16 (ucast (drop_bit 8 x)) (ucast x) = x"
  unfolding be16_def
  by (rule bit_word_eqI) (auto simp: bit_simps dest: bit_imp_le_length)

lemma store_u16_htons: "store_u16 e (htons e x) = [ucast (drop_bit 8 x), ucast x]"
proof (cases e)
  case LittleEndian
  have "(ucast (bswap16 x) :: u8) = ucast (drop_bit 8 x)"
    unfolding bswap16_def
    by (rule bit_word_eqI) (auto simp: bit_simps dest: bit_imp_le_length)
  moreover have "(ucast (drop_bit 8 (bswap16 x)) :: u8) = ucast x"
    unfolding bswap16_def
    by (rule bit_word_eqI) (auto simp: bit_simps dest: bit_imp_le_length)
  ultimately show ?thesis
    using LittleEndian by (simp add: store_u16_def htons_def)
next
  case BigEndian
  then show ?thesis by (simp add: store_u16_def htons_def)
qed

lemma length_store_u16: "length (store_u16 e x) = 2"
  by (cases e) (simp_all add: store_u16_def)

lemma low_nibble: "unat ((b :: u8) AND 0x0F) = unat b mod 16"
proof -
  have "b AND 0x0F = take_bit 4 b"
    using take_bit_eq_mask [of 4 b] by (simp add: mask_numeral)
  then show ?thesis
    by (simp add: take_bit_eq_mod unat_mod)
qed

lemma ucast_NOT_down: "(ucast (NOT (s :: u32)) :: u16) = NOT (ucast s)"
  by (rule bit_word_eqI) (auto simp: bit_simps dest: bit_imp_le_length)

lemma store_u16_zero: "store_u16 e 0 = [0, 0]"
  by (cases e) (simp_all add: store_u16_def)

section \<open>The checksum engine: the two loops\<close>

text \<open>
  The carry fold returns a value below \<open>2 ^ 16\<close> that is congruent to its argument modulo
  \<open>2 ^ 16 - 1\<close> and is zero only for the argument zero. The word loop adds the big-endian
  values of the 16-bit words of the buffer to its accumulator.
\<close>

lemma unat_lt_u32: "unat (s :: u32) < 4294967296"
  using unsigned_less [of s, where 'a = nat] by simp

lemma unat_lt_u16: "unat (s :: u16) < 65536"
  using unsigned_less [of s, where 'a = nat] by simp

lemma unat_NOT_u16: "unat (NOT (y :: u16)) = 65535 - unat y"
proof -
  have "NOT y = - 1 - y"
    by (simp add: not_eq_complement)
  moreover have "unat (- 1 - y) = unat (- 1 :: u16) - unat y"
    by (rule unat_sub) simp
  moreover have "unat (- 1 :: u16) = 65535"
    by (simp add: unsigned_minus_1_eq_mask mask_eq_exp_minus_1)
  ultimately show ?thesis by simp
qed

lemma fold_carry_done:
  fixes s :: u32
  assumes "drop_bit 16 s = 0"
  shows "fold_carry s = s" and "unat s < 65536"
proof -
  show "fold_carry s = s"
    using assms by (simp add: fold_carry.simps)
  have "unat (drop_bit 16 s) = unat s div 65536"
    by (simp add: drop_bit_eq_div unat_div)
  with assms have "unat s div 65536 = 0" by simp
  then show "unat s < 65536"
    by (simp add: div_eq_0_iff)
qed

lemma fold_carry_step:
  fixes s :: u32
  assumes nz: "drop_bit 16 s \<noteq> 0"
  obtains q r where "unat s = 65536 * q + r" and "q \<noteq> 0" and "r < 65536"
    and "unat ((s AND 0xFFFF) + drop_bit 16 s) = r + q"
    and "fold_carry s = fold_carry ((s AND 0xFFFF) + drop_bit 16 s)"
proof -
  define n q r where "n = unat s" and "q = n div 65536" and "r = n mod 65536"
  have m: "s AND 0xFFFF = take_bit 16 s"
    using take_bit_eq_mask [of 16 s] by (simp add: mask_numeral)
  have l: "unat (take_bit 16 s) = r"
    unfolding r_def n_def by (simp add: take_bit_eq_mod unat_mod)
  have h: "unat (drop_bit 16 s) = q"
    unfolding q_def n_def by (simp add: drop_bit_eq_div unat_div)
  have n: "n = 65536 * q + r"
    unfolding q_def r_def by (rule mult_div_mod_eq [symmetric])
  have b: "n < 4294967296"
    unfolding n_def by (rule unat_lt_u32)
  have r: "r < 65536"
    unfolding r_def by simp
  have "unat (drop_bit 16 s) \<noteq> 0"
    using nz by (simp add: unat_eq_0)
  then have q0: "q \<noteq> 0"
    unfolding h .
  have "unat (take_bit 16 s + drop_bit 16 s) = (r + q) mod 4294967296"
    unfolding unat_word_ariths l h by simp
  also have "\<dots> = r + q"
    using n b by simp
  finally have sum: "unat ((s AND 0xFFFF) + drop_bit 16 s) = r + q"
    unfolding m .
  have f: "fold_carry s = fold_carry ((s AND 0xFFFF) + drop_bit 16 s)"
    using nz by (subst fold_carry.simps) simp
  show thesis
    using that [of q r] n q0 r sum f unfolding n_def by blast
qed

lemma mod_65535_step: "(65536 * q + r) mod 65535 = (r + q) mod (65535 :: nat)"
proof -
  have "65536 * q + r = 65535 * q + (r + q)" by simp
  then show ?thesis
    by (simp only: mod_mult_self4)
qed

lemma fold_carry_props:
  "unat (fold_carry s) < 65536
   \<and> unat (fold_carry s) mod 65535 = unat s mod 65535
   \<and> (unat s \<noteq> 0 \<longrightarrow> unat (fold_carry s) \<noteq> 0)
   \<and> unat (fold_carry s) \<le> unat s"
proof (induction s rule: fold_carry.induct)
  case (1 s)
  show ?case
  proof (cases "drop_bit 16 s = 0")
    case True
    then show ?thesis
      using fold_carry_done [OF True] by simp
  next
    case False
    obtain q r where n: "unat s = 65536 * q + r" and q: "q \<noteq> 0" and r: "r < 65536"
      and sum: "unat ((s AND 0xFFFF) + drop_bit 16 s) = r + q"
      and f: "fold_carry s = fold_carry ((s AND 0xFFFF) + drop_bit 16 s)"
      using fold_carry_step [OF False] by blast
    note ih = "1.IH" [OF False, unfolded sum, folded f]
    have "unat (fold_carry s) mod 65535 = unat s mod 65535"
      using ih by (simp only: n mod_65535_step)
    moreover have "unat s \<noteq> 0 \<longrightarrow> unat (fold_carry s) \<noteq> 0"
      using ih q by simp
    moreover have "unat (fold_carry s) \<le> unat s"
      using ih q n by linarith
    ultimately show ?thesis
      using ih by simp
  qed
qed

lemma unat_ucast_u32_u16: "unat (x :: u32) < 65536 \<Longrightarrow> unat (ucast x :: u16) = unat x"
  by (simp add: unsigned_ucast_eq take_bit_nat_eq_self)

lemma unat_ucast_u16_u32: "unat (ucast (v :: u16) :: u32) = unat v"
proof -
  have "unat v < 4294967296"
    using unat_lt_u16 [of v] by linarith
  then show ?thesis
    by (simp add: unsigned_ucast_eq take_bit_nat_eq_self)
qed

lemma multiple_of_65535_small:
  fixes a :: nat
  assumes "a mod 65535 = 0" and "a \<noteq> 0" and "a < 65536"
  shows "a = 65535"
proof -
  from assms(1) obtain j where j: "a = 65535 * j"
    by (auto simp: mod_eq_0_iff_dvd)
  with assms(2) have "j \<noteq> 0" by auto
  moreover from j assms(3) have "j < 2" by linarith
  ultimately have "j = 1" by linarith
  with j show ?thesis by simp
qed

lemma fold_carry_verify:
  "fold_carry (s + ucast (ucast (NOT (fold_carry s)) :: u16)) = 0xFFFF"
proof -
  define n a where "n = unat s" and "a = unat (fold_carry s)"
  define v :: u16 where "v = ucast (NOT (fold_carry s))"
  define s' where "s' = s + ucast v"
  have p: "a < 65536" "a mod 65535 = n mod 65535" "n \<noteq> 0 \<longrightarrow> a \<noteq> 0" "a \<le> n"
    using fold_carry_props [of s] unfolding n_def a_def by simp_all
  have nb: "n < 4294967296"
    unfolding n_def by (rule unat_lt_u32)
  have "v = NOT (ucast (fold_carry s))"
    unfolding v_def by (rule ucast_NOT_down)
  then have "unat v = 65535 - unat (ucast (fold_carry s) :: u16)"
    by (simp only: unat_NOT_u16)
  also have "unat (ucast (fold_carry s) :: u16) = a"
    unfolding a_def using p(1) unfolding a_def by (rule unat_ucast_u32_u16)
  finally have uv: "unat v = 65535 - a" .
  have "65535 dvd n - a"
    using p(2) [symmetric] by (rule mod_eq_dvd_iff_nat [OF p(4), THEN iffD1])
  then obtain k where k: "n - a = 65535 * k"
    by (auto elim: dvdE)
  have kb: "k \<le> 65536"
  proof (rule ccontr)
    assume "\<not> k \<le> 65536"
    then have "65537 \<le> k" by simp
    then have "65535 * 65537 \<le> n - a"
      unfolding k by simp
    with nb p(4) have "n = 4294967295 \<and> a = 0" by linarith
    with p(3) show False by simp
  qed
  have total: "n + (65535 - a) = 65535 * (k + 1)"
    using k p(1) p(4) by simp
  have nov: "n + (65535 - a) < 4294967296"
    unfolding total using kb by simp
  have "unat s' = (unat s + unat (ucast v :: u32)) mod 4294967296"
    unfolding s'_def by (simp add: unat_word_ariths)
  also have "\<dots> = (n + (65535 - a)) mod 4294967296"
    by (simp only: unat_ucast_u16_u32 uv n_def)
  also have "\<dots> = 65535 * (k + 1)"
    using nov by (simp only: mod_less total)
  finally have us': "unat s' = 65535 * (k + 1)" .
  have p': "unat (fold_carry s') < 65536"
      "unat (fold_carry s') mod 65535 = unat s' mod 65535"
      "unat s' \<noteq> 0 \<longrightarrow> unat (fold_carry s') \<noteq> 0"
    using fold_carry_props [of s'] by simp_all
  have "unat (fold_carry s') mod 65535 = 0"
    using p'(2) unfolding us' by simp
  moreover have "unat (fold_carry s') \<noteq> 0"
    using p'(3) unfolding us' by simp
  ultimately have "unat (fold_carry s') = 65535"
    using p'(1) by (intro multiple_of_65535_small)
  then have "fold_carry s' = 0xFFFF"
    by (simp add: word_unat_eq_iff)
  then show ?thesis
    unfolding s'_def v_def .
qed

lemma sum_words_acc:
  "sum_words e data i n (acc + x) = sum_words e data i n acc + x"
proof (induction e data i n acc rule: sum_words.induct)
  case (1 e data i n acc)
  show ?case
  proof (cases "i < n")
    case True
    have "sum_words e data i n (acc + x)
            = sum_words e data (Suc i) n (acc + ucast (ntohs e (word_at e data i)) + x)"
      using True by (subst sum_words.simps) (simp add: ac_simps)
    also have "\<dots> = sum_words e data (Suc i) n (acc + ucast (ntohs e (word_at e data i))) + x"
      by (rule "1.IH" [OF True])
    also have "sum_words e data (Suc i) n (acc + ucast (ntohs e (word_at e data i)))
                 = sum_words e data i n acc"
      using True by (subst (2) sum_words.simps) simp
    finally show ?thesis .
  next
    case False
    then show ?thesis
      by (simp add: sum_words.simps)
  qed
qed

lemma sum_words_cong:
  assumes "\<And>k. 2 * i \<le> k \<Longrightarrow> d1 ! k = d2 ! k"
  shows "sum_words e d1 i n acc = sum_words e d2 i n acc"
  using assms
proof (induction e d1 i n acc rule: sum_words.induct)
  case (1 e d1 i n acc)
  show ?case
  proof (cases "i < n")
    case True
    have w: "word_at e d1 i = word_at e d2 i"
      using "1.prems" [of "2 * i"] "1.prems" [of "2 * i + 1"] by (simp add: word_at_def)
    have "sum_words e d1 (Suc i) n (acc + ucast (ntohs e (word_at e d1 i)))
            = sum_words e d2 (Suc i) n (acc + ucast (ntohs e (word_at e d1 i)))"
      using True "1.prems" by (intro "1.IH") simp_all
    then show ?thesis
      using True w by (subst sum_words.simps, subst (2) sum_words.simps) simp
  next
    case False
    then show ?thesis
      by (simp add: sum_words.simps)
  qed
qed

lemma sum_words_first_two:
  assumes "2 \<le> n"
  shows "sum_words e d 0 n 0
           = sum_words e d 2 n 0
             + ucast (be16 (d ! 0) (d ! 1)) + ucast (be16 (d ! 2) (d ! 3))"
proof -
  have "sum_words e d 0 n 0 = sum_words e d (Suc 0) n (0 + ucast (ntohs e (word_at e d 0)))"
    using assms by (subst sum_words.simps) simp
  also have "\<dots> = sum_words e d (Suc (Suc 0)) n
                      (0 + ucast (ntohs e (word_at e d 0)) + ucast (ntohs e (word_at e d 1)))"
    using assms by (subst sum_words.simps) simp
  also have "\<dots> = sum_words e d 2 n (0 + ucast (be16 (d ! 0) (d ! 1)) + ucast (be16 (d ! 2) (d ! 3)))"
    by (simp add: word_at_def ntohs_load_u16 numeral_2_eq_2 numeral_3_eq_3)
  finally show ?thesis
    by (simp only: sum_words_acc)
qed

lemma memcpy_two:
  assumes "4 \<le> length B"
  shows "memcpy B 2 [x, y] = B[2 := x, 3 := y]"
proof (rule nth_equalityI)
  show "length (memcpy B 2 [x, y]) = length (B[2 := x, 3 := y])"
    using assms by (simp add: memcpy_def)
next
  fix i
  assume "i < length (memcpy B 2 [x, y])"
  then have i: "i < length B"
    using assms by (simp add: memcpy_def)
  consider "i < 2" | "i = 2" | "i = 3" | "4 \<le> i" by linarith
  then show "memcpy B 2 [x, y] ! i = B[2 := x, 3 := y] ! i"
  proof cases
    case 1
    then show ?thesis
      using assms by (simp add: memcpy_def nth_append)
  next
    case 2
    then show ?thesis
      using assms by (simp add: memcpy_def nth_append)
  next
    case 3
    then show ?thesis
      using assms by (simp add: memcpy_def nth_append)
  next
    case 4
    then have "memcpy B 2 [x, y] ! i = drop 4 B ! (i - 4)"
      using assms by (simp add: memcpy_def nth_append)
    also have "\<dots> = B ! i"
      using 4 i by simp
    finally show ?thesis
      using 4 by simp
  qed
qed

lemma be16_zero: "be16 0 0 = 0"
  by (simp add: be16_def)

lemma icmp_checksum_unfold:
  "icmp_checksum e data =
     htons e (ucast (NOT (fold_carry
       (sum_words e data 0 (length data div 2) 0
        + (if length data mod 2 \<noteq> 0 then push_bit 8 (ucast (data ! (length data - 1)))
           else 0)))))"
  by (simp add: icmp_checksum_def Let_def)

lemma ucast_NOT_ffff: "(ucast (NOT (0xFFFF :: u32)) :: u16) = 0"
  by (simp add: ucast_NOT_down)

section \<open>The checksum of the empty buffer\<close>

text \<open>
  Claim C7. \<open>icmp_checksum\<close> on a buffer of length 0 is defined (both loops of the
  function terminate, so the model is a total function) and returns the one's complement
  of 0, which is \<open>0xFFFF\<close>, whatever the byte order of the host.
\<close>

theorem icmp_checksum_empty:
  "icmp_checksum e [] = NOT 0 \<and> icmp_checksum e [] = 0xFFFF"
  by (cases e)
     (simp_all add: icmp_checksum_def sum_words.simps fold_carry.simps htons_def
        ucast_NOT_down bswap16_ones)

section \<open>The checksum verifies itself\<close>

text \<open>
  Claim C1. Let \<open>B\<close> be a buffer of at least four bytes, of even or odd length, and \<open>c\<close>
  the result of \<open>icmp_checksum\<close> on \<open>B\<close> with the bytes at offsets 2 and 3 set to zero.
  Writing \<open>c\<close> into \<open>B\<close> at offset 2, the way \<open>create_icmp_echo_request\<close> does with
  \<open>memcpy\<close>, gives a buffer on which \<open>icmp_checksum\<close> returns 0. This holds on a host of
  either byte order and for every length: the 32-bit accumulator may wrap around.
\<close>

theorem icmp_checksum_self_verifies:
  assumes len: "4 \<le> length B"
  shows "icmp_checksum e (memcpy B 2 (store_u16 e (icmp_checksum e (B[2 := 0, 3 := 0])))) = 0"
proof -
  define B0 where "B0 = B[2 := 0, 3 := 0]"
  define n where "n = length B div 2"
  define tail :: u32 where
    "tail = (if length B mod 2 \<noteq> 0 then push_bit 8 (ucast (B ! (length B - 1))) else 0)"
  define s0 where "s0 = sum_words e B0 0 n 0 + tail"
  define v :: u16 where "v = ucast (NOT (fold_carry s0))"
  define B1 where "B1 = B[2 := ucast (drop_bit 8 v), 3 := ucast v]"
  have n2: "2 \<le> n"
    unfolding n_def using len by linarith
  have last: "length B mod 2 \<noteq> 0 \<Longrightarrow> 4 \<le> length B - 1"
    using len by (cases "length B = 4") auto
  have tail0: "(if length B0 mod 2 \<noteq> 0 then push_bit 8 (ucast (B0 ! (length B0 - 1))) else 0)
                 = tail"
    unfolding tail_def B0_def using last by auto
  have tail1: "(if length B1 mod 2 \<noteq> 0 then push_bit 8 (ucast (B1 ! (length B1 - 1))) else 0)
                 = tail"
    unfolding tail_def B1_def using last by auto
  have c0: "icmp_checksum e B0 = htons e v"
    unfolding icmp_checksum_unfold tail0 v_def s0_def n_def by (simp add: B0_def)
  have mem: "memcpy B 2 (store_u16 e (htons e v)) = B1"
    unfolding B1_def store_u16_htons using len by (rule memcpy_two)
  have rest: "sum_words e B1 2 n 0 = sum_words e B0 2 n 0"
    by (rule sum_words_cong) (simp add: B0_def B1_def)
  have w0: "sum_words e B0 0 n 0 = sum_words e B0 2 n 0 + ucast (be16 (B ! 0) (B ! 1))"
    using len by (simp add: sum_words_first_two [OF n2] B0_def be16_zero)
  have w1: "sum_words e B1 0 n 0
              = sum_words e B1 2 n 0 + ucast (be16 (B ! 0) (B ! 1)) + ucast v"
    using len by (simp add: sum_words_first_two [OF n2] B1_def be16_split)
  have words: "sum_words e B1 0 n 0 = sum_words e B0 0 n 0 + ucast v"
    unfolding w0 w1 rest ..
  have "icmp_checksum e B1 = htons e (ucast (NOT (fold_carry (sum_words e B1 0 n 0 + tail))))"
    unfolding icmp_checksum_unfold tail1 n_def by (simp add: B1_def)
  also have "sum_words e B1 0 n 0 + tail = s0 + ucast v"
    unfolding words s0_def by (simp add: ac_simps)
  also have "fold_carry (s0 + ucast v) = 0xFFFF"
    unfolding v_def by (rule fold_carry_verify)
  finally have "icmp_checksum e B1 = 0"
    by (simp only: ucast_NOT_ffff htons_zero)
  then show ?thesis
    unfolding mem [symmetric] c0 [symmetric] B0_def .
qed

theorem icmp_checksum_self_verifies_witness:
  "4 \<le> length odd_buffer
   \<and> icmp_checksum LittleEndian
         (memcpy odd_buffer 2
            (store_u16 LittleEndian (icmp_checksum LittleEndian (odd_buffer[2 := 0, 3 := 0]))))
       = 0"
proof -
  have len: "4 \<le> length odd_buffer"
    by (simp add: odd_buffer_def)
  show ?thesis
    using len icmp_checksum_self_verifies [OF len, of LittleEndian] by simp
qed

section \<open>The packet codec: decoding\<close>

text \<open>
  Claim C6. On a buffer that has a first byte, \<open>get_ip_header_length\<close> returns four times
  the low nibble of that byte; a first byte of \<open>0x45\<close> gives 20.
\<close>

theorem get_ip_header_length_low_nibble:
  "get_ip_header_length (b # rest) = 4 * (unat b mod 16)
   \<and> get_ip_header_length (0x45 # rest) = 20"
  by (simp add: get_ip_header_length_def low_nibble)

text \<open>
  Claim C5. Two headers that differ only in the checksum field get the same answer from
  \<open>validate_icmp_response\<close>, for every expected identifier and sequence: as header
  records, and as bytes of a received buffer that differ only at offsets 2 and 3 of the
  ICMP header.
\<close>

theorem validate_icmp_response_ignores_checksum:
  "validate_icmp_response e (h\<lparr>checksum := c\<rparr>) expected_id expected_seq
     = validate_icmp_response e h expected_id expected_seq
   \<and> validate_icmp_response e (icmphdr_at e (buf[off + 2 := x, off + 3 := y]) off)
         expected_id expected_seq
     = validate_icmp_response e (icmphdr_at e buf off) expected_id expected_seq"
  by (simp add: validate_icmp_response_def icmphdr_at_def)

theorem validate_icmp_response_ignores_checksum_witness:
  "validate_icmp_response LittleEndian (echo_reply_header\<lparr>checksum := 0xBEEF\<rparr>) 1234 1
     = validate_icmp_response LittleEndian echo_reply_header 1234 1
   \<and> validate_icmp_response LittleEndian (echo_reply_header\<lparr>checksum := 0xBEEF\<rparr>) 1234 1
   \<and> validate_icmp_response LittleEndian
         (icmphdr_at LittleEndian (echo_reply_datagram[20 + 2 := 0xBE, 20 + 3 := 0xEF]) 20) 777 5"
proof -
  have hdr: "validate_icmp_response LittleEndian echo_reply_header 1234 1"
    by (simp add: echo_reply_header_def validate_icmp_response_def ntohs_def bswap16_def
          ICMP_ECHOREPLY_def)
  have dgram: "validate_icmp_response LittleEndian
                 (icmphdr_at LittleEndian echo_reply_datagram 20) 777 5"
    by (simp add: echo_reply_datagram_def validate_icmp_response_def icmphdr_at_def
          ntohs_load_u16 be16_def ICMP_ECHOREPLY_def)
  show ?thesis
    using hdr dgram
      validate_icmp_response_ignores_checksum
        [where e = LittleEndian and h = echo_reply_header and c = "0xBEEF"
           and expected_id = 1234 and expected_seq = 1 and buf = echo_reply_datagram
           and off = 20 and x = "0xBE" and y = "0xEF"]
      validate_icmp_response_ignores_checksum
        [where e = LittleEndian and h = echo_reply_header and c = "0xBEEF"
           and expected_id = 777 and expected_seq = 5 and buf = echo_reply_datagram
           and off = 20 and x = "0xBE" and y = "0xEF"]
    by simp
qed

text \<open>
  Claim C3. \<open>validate_icmp_response\<close> answers true exactly when the type is 0 (Echo
  Reply), the code is 0, and the identifier and the sequence, after \<open>ntohs\<close>, equal the
  expected ones; for a header read from a buffer these are the big-endian values of bytes
  4-5 and 6-7 of the header. If a header is accepted, changing any one of its type, code,
  identifier or sequence, or one of the two expected values, makes the answer false.
\<close>

theorem validate_icmp_response_iff:
  "(validate_icmp_response e h expected_id expected_seq \<longleftrightarrow>
      type h = 0 \<and> code h = 0
      \<and> ntohs e (un_echo_id h) = expected_id
      \<and> ntohs e (un_echo_sequence h) = expected_seq)
   \<and> (validate_icmp_response e (icmphdr_at e buf off) expected_id expected_seq \<longleftrightarrow>
      buf ! off = 0 \<and> buf ! (off + 1) = 0
      \<and> be16 (buf ! (off + 4)) (buf ! (off + 5)) = expected_id
      \<and> be16 (buf ! (off + 6)) (buf ! (off + 7)) = expected_seq)
   \<and> (validate_icmp_response e h expected_id expected_seq \<longrightarrow>
        (t \<noteq> type h \<longrightarrow> \<not> validate_icmp_response e (h\<lparr>type := t\<rparr>) expected_id expected_seq)
      \<and> (c \<noteq> code h \<longrightarrow> \<not> validate_icmp_response e (h\<lparr>code := c\<rparr>) expected_id expected_seq)
      \<and> (i \<noteq> un_echo_id h \<longrightarrow>
            \<not> validate_icmp_response e (h\<lparr>un_echo_id := i\<rparr>) expected_id expected_seq)
      \<and> (s \<noteq> un_echo_sequence h \<longrightarrow>
            \<not> validate_icmp_response e (h\<lparr>un_echo_sequence := s\<rparr>) expected_id expected_seq)
      \<and> (i' \<noteq> expected_id \<longrightarrow> \<not> validate_icmp_response e h i' expected_seq)
      \<and> (s' \<noteq> expected_seq \<longrightarrow> \<not> validate_icmp_response e h expected_id s'))"
  by (auto simp: validate_icmp_response_def icmphdr_at_def ICMP_ECHOREPLY_def ntohs_load_u16
        ntohs_inject)

theorem validate_icmp_response_iff_witness:
  "validate_icmp_response LittleEndian echo_reply_header 1234 1
   \<and> \<not> validate_icmp_response LittleEndian (echo_reply_header\<lparr>type := 8\<rparr>) 1234 1
   \<and> \<not> validate_icmp_response LittleEndian (echo_reply_header\<lparr>code := 1\<rparr>) 1234 1
   \<and> \<not> validate_icmp_response LittleEndian (echo_reply_header\<lparr>un_echo_id := 0xD304\<rparr>) 1234 1
   \<and> \<not> validate_icmp_response LittleEndian
           (echo_reply_header\<lparr>un_echo_sequence := 0x0200\<rparr>) 1234 1
   \<and> \<not> validate_icmp_response LittleEndian echo_reply_header 1235 1
   \<and> \<not> validate_icmp_response LittleEndian echo_reply_header 1234 2"
proof -
  have ok: "validate_icmp_response LittleEndian echo_reply_header 1234 1"
    by (simp add: echo_reply_header_def validate_icmp_response_def ntohs_def bswap16_def
          ICMP_ECHOREPLY_def)
  show ?thesis
    using ok validate_icmp_response_iff
      [where e = LittleEndian and h = echo_reply_header and expected_id = 1234
         and expected_seq = 1 and buf = echo_reply_datagram and off = 20 and t = 8 and c = 1
         and i = "0xD304" and s = "0x0200" and i' = 1235 and s' = 2]
    by (simp add: echo_reply_header_def)
qed

section \<open>The packet codec: encoding\<close>

lemma create_icmp_echo_request_bytes:
  "create_icmp_echo_request e ident seqno payload =
     [8, 0] @ store_u16 e (icmp_checksum e
        ([8, 0, 0, 0, ucast (drop_bit 8 ident), ucast ident, ucast (drop_bit 8 seqno), ucast seqno]
          @ string_bytes payload))
     @ [ucast (drop_bit 8 ident), ucast ident, ucast (drop_bit 8 seqno), ucast seqno]
     @ string_bytes payload"
  by (simp add: create_icmp_echo_request_def Let_def memcpy_def icmphdr_bytes_def store_u16_htons
      ICMP_ECHO_def sizeof_icmphdr_def string_bytes_def length_store_u16 store_u16_zero)

text \<open>
  Claim C4. For every identifier, sequence and payload, the packet that
  \<open>create_icmp_echo_request\<close> returns has 8 bytes more than the payload; byte 0 is 8 (Echo
  Request) and byte 1 is 0; bytes 4-5 are the identifier and bytes 6-7 the sequence, high
  byte first; the bytes from offset 8 on are the payload. Reading bytes 4-5 and 6-7 back,
  as a big-endian value or through the header structure and \<open>ntohs\<close>, gives the identifier
  and the sequence that went in.
\<close>

theorem create_icmp_echo_request_layout:
  "(let packet = create_icmp_echo_request e ident seqno payload in
      length packet = 8 + length payload
      \<and> packet ! 0 = 8
      \<and> packet ! 1 = 0
      \<and> packet ! 4 = ucast (drop_bit 8 ident) \<and> packet ! 5 = ucast ident
      \<and> packet ! 6 = ucast (drop_bit 8 seqno) \<and> packet ! 7 = ucast seqno
      \<and> drop 8 packet = string_bytes payload
      \<and> be16 (packet ! 4) (packet ! 5) = ident
      \<and> be16 (packet ! 6) (packet ! 7) = seqno
      \<and> ntohs e (un_echo_id (icmphdr_at e packet 0)) = ident
      \<and> ntohs e (un_echo_sequence (icmphdr_at e packet 0)) = seqno)"
proof -
  obtain c0 c1 where c: "store_u16 e (icmp_checksum e
        ([8, 0, 0, 0, ucast (drop_bit 8 ident), ucast ident, ucast (drop_bit 8 seqno), ucast seqno]
          @ string_bytes payload)) = [c0, c1]"
    by (cases e) (simp_all add: store_u16_def)
  show ?thesis
    unfolding create_icmp_echo_request_bytes c Let_def
    by (simp add: be16_split icmphdr_at_def ntohs_load_u16 string_bytes_def)
qed

text \<open>The identifier 1234, the sequence 1 and the payload \<open>PING_PAYLOAD_1\<close>, read back.\<close>

theorem create_icmp_echo_request_layout_witness:
  "be16 (create_icmp_echo_request LittleEndian 1234 1 ''PING_PAYLOAD_1'' ! 4)
        (create_icmp_echo_request LittleEndian 1234 1 ''PING_PAYLOAD_1'' ! 5) = 1234
   \<and> be16 (create_icmp_echo_request LittleEndian 1234 1 ''PING_PAYLOAD_1'' ! 6)
          (create_icmp_echo_request LittleEndian 1234 1 ''PING_PAYLOAD_1'' ! 7) = 1
   \<and> create_icmp_echo_request LittleEndian 1234 1 ''PING_PAYLOAD_1'' ! 0 = 8
   \<and> create_icmp_echo_request LittleEndian 1234 1 ''PING_PAYLOAD_1'' ! 1 = 0
   \<and> drop 8 (create_icmp_echo_request LittleEndian 1234 1 ''PING_PAYLOAD_1'')
       = string_bytes ''PING_PAYLOAD_1''"
  using create_icmp_echo_request_layout [of LittleEndian 1234 1 "''PING_PAYLOAD_1''"]
  unfolding Let_def by blast

section \<open>The exchange coordinator: one call of \<open>send_ping\<close>\<close>

lemma get_ip_header_length_le: "get_ip_header_length buf \<le> 60"
proof -
  have "unat (buf ! 0) mod 16 < 16" by simp
  then have "4 * (unat (buf ! 0) mod 16) \<le> 60" by linarith
  then show ?thesis
    by (simp add: get_ip_header_length_def low_nibble)
qed

lemma to_int32_small: "0 \<le> x \<Longrightarrow> x < 2147483648 \<Longrightarrow> to_int32 x = x"
  unfolding to_int32_def
  by (simp add: sint_sbintrunc' signed_take_bit_int_eq_self)

lemma recv_buffer_nth:
  "i < len \<Longrightarrow>
     recv_buffer stack dgram len ! i = (if i < length dgram then dgram ! i else stack i)"
  by (simp add: recv_buffer_def)

lemma length_recv_buffer: "length (recv_buffer stack dgram len) = len"
  by (simp add: recv_buffer_def)

lemma sys_recvfrom_le:
  "sys_recvfrom w sock len = ((received, buffer, sender), w1) \<Longrightarrow> received \<le> int len"
  by (auto simp: sys_recvfrom_def Let_def split: recv_outcome.splits)

text \<open>
  The whole of \<open>send_ping\<close> in terms of the world it starts in: the five places where it
  returns the result as initialised, with the world each of them leaves behind, the place
  where \<open>FD_SET\<close> writes outside the set, and the one place where the result is filled in.
\<close>

lemma send_ping_unfold:
  "send_ping e w sock dest ident seqno =
    (let r0 = \<lparr>success = False, rtt_ms = 0, from_addr = [], bytes_received = 0, ttl = 0,
                sequence = seqno, identifier = ident\<rparr>;
         packet = create_icmp_echo_request e ident seqno
                    (''PING_PAYLOAD_'' @ to_string (unat seqno));
         w1 = w\<lparr>clock_calls := Suc (clock_calls w), sendto_calls := Suc (sendto_calls w),
                sent_packets := sent_packets w @ [(dest, packet)]\<rparr>;
         w2 = w1\<lparr>select_calls := Suc (select_calls w)\<rparr>;
         w3 = w2\<lparr>recvfrom_calls := Suc (recvfrom_calls w)\<rparr>;
         w4 = w3\<lparr>clock_calls := Suc (Suc (clock_calls w))\<rparr>;
         rcv = fst (sys_recvfrom w sock BUFFER_SIZE);
         received = fst rcv;
         buffer = fst (snd rcv);
         from = snd (snd rcv);
         ihl = get_ip_header_length buffer
     in if sendto_ret w (sendto_calls w) \<le> 0 then Inr (r0, w1)
        else if \<not> (0 \<le> sock \<and> sock < FD_SETSIZE) then Inl OutOfBounds
        else if select_ret w (select_calls w) \<le> 0 then Inr (r0, w2)
        else if received \<le> 0 then Inr (r0, w3)
        else if received < int (ihl + sizeof_icmphdr) then Inr (r0, w4)
        else if \<not> validate_icmp_response e (icmphdr_at e buffer ihl) ident seqno
          then Inr (r0, w4)
        else Inr (r0\<lparr>success := True,
                 rtt_ms := real_of_int (to_microseconds
                   (clock_ns w (Suc (clock_calls w)) - clock_ns w (clock_calls w))) / 1000,
                 from_addr := inet_ntop from,
                 bytes_received := to_int32 (received - int ihl - int sizeof_icmphdr),
                 ttl := uint (buffer ! 8)\<rparr>, w4))"
proof -
  have m: "min n (1500 :: nat) = 0 \<longleftrightarrow> n = 0" for n
    by (auto simp: min_def)
  show ?thesis
    by (cases "recvfrom_ret w (recvfrom_calls w)")
       (simp_all add: send_ping_def Let_def sys_recvfrom_def sys_select_def sys_sendto_def
          steady_clock_now_def BUFFER_SIZE_def FD_SET_def m del: min_0R min_0L)
qed

text \<open>
  A descriptor outside \<open>0 ..< FD_SETSIZE\<close> on which the packet could be sent: \<open>FD_SET\<close>
  writes outside \<open>read_set\<close> and no result is defined. When the send fails the function
  returns before it touches the set.
\<close>

lemma send_ping_out_of_bounds:
  assumes "0 < sendto_ret w (sendto_calls w)" and "sock < 0 \<or> FD_SETSIZE \<le> sock"
  shows "send_ping e w sock dest ident seqno = Inl OutOfBounds"
  using assms by (auto simp: send_ping_unfold Let_def)

lemma send_ping_send_failure:
  assumes "sendto_ret w (sendto_calls w) \<le> 0"
  shows "result_of (send_ping e w sock dest ident seqno) =
           Some \<lparr>success = False, rtt_ms = 0, from_addr = [], bytes_received = 0, ttl = 0,
                 sequence = seqno, identifier = ident\<rparr>"
  using assms by (simp add: send_ping_unfold Let_def result_of_def)

lemma send_ping_defined:
  assumes "0 \<le> sock" and "sock < FD_SETSIZE"
  shows "\<exists>r w'. send_ping e w sock dest ident seqno = Inr (r, w')"
  using assms by (simp add: send_ping_unfold Let_def)

lemma send_ping_success_unfold:
  assumes "send_ping e w sock dest ident seqno = Inr (r, w')" and "success r"
    and "sys_recvfrom w sock BUFFER_SIZE = ((received, buffer, sender), w1)"
  shows "0 < sendto_ret w (sendto_calls w)"
    and "0 < select_ret w (select_calls w)"
    and "0 < received"
    and "\<not> received < int (get_ip_header_length buffer + sizeof_icmphdr)"
    and "validate_icmp_response e (icmphdr_at e buffer (get_ip_header_length buffer)) ident seqno"
    and "bytes_received r
           = to_int32 (received - int (get_ip_header_length buffer) - int sizeof_icmphdr)"
    and "ttl r = uint (buffer ! 8)"
    and "from_addr r = inet_ntop sender"
    and "sequence r = seqno" and "identifier r = ident"
    and "0 \<le> sock" and "sock < FD_SETSIZE"
  using assms
  by (auto simp: send_ping_unfold Let_def split: if_splits)

text \<open>The example worlds, evaluated. Descriptor 3 is in range.\<close>

lemma fd3_in_range: "(0 :: int) \<le> 3 \<and> 3 < FD_SETSIZE"
  by (simp add: FD_SETSIZE_def)

lemma loopback_recv:
  "sys_recvfrom loopback_world 3 BUFFER_SIZE =
     ((42, recv_buffer (\<lambda>i. 0) echo_reply_datagram 1500, (127, 0, 0, 1)),
      loopback_world\<lparr>recvfrom_calls := 1\<rparr>)"
  by (simp add: sys_recvfrom_def loopback_world_def quiet_world_def BUFFER_SIZE_def
        echo_reply_datagram_def)

lemma quiet_recv:
  "sys_recvfrom quiet_world 3 BUFFER_SIZE =
     ((- 1, recv_buffer (\<lambda>i. 0) [] 1500, (0, 0, 0, 0)), quiet_world\<lparr>recvfrom_calls := 1\<rparr>)"
  by (simp add: sys_recvfrom_def quiet_world_def BUFFER_SIZE_def)

lemma loopback_ihl:
  "get_ip_header_length (recv_buffer (\<lambda>i. 0) echo_reply_datagram 1500) = 20"
  by (simp add: get_ip_header_length_def recv_buffer_nth echo_reply_datagram_def)

lemma loopback_valid:
  "validate_icmp_response LittleEndian
     (icmphdr_at LittleEndian (recv_buffer (\<lambda>i. 0) echo_reply_datagram 1500) 20) 777 seqno
   \<longleftrightarrow> seqno = 5"
  by (auto simp: validate_icmp_response_def icmphdr_at_def recv_buffer_nth ntohs_load_u16
        be16_def ICMP_ECHOREPLY_def echo_reply_datagram_def)

lemma loopback_result:
  "result_of (send_ping LittleEndian loopback_world 3 (127, 0, 0, 1) 777 5) =
     Some \<lparr>success = True, rtt_ms = 3 / 2, from_addr = ''127.0.0.1'', bytes_received = 14,
           ttl = 64, sequence = 5, identifier = 777\<rparr>"
proof -
  have "result_of (send_ping LittleEndian loopback_world 3 (127, 0, 0, 1) 777 5) =
     Some \<lparr>success = True,
      rtt_ms = real_of_int (to_microseconds
                 (clock_ns loopback_world 1 - clock_ns loopback_world 0)) / 1000,
      from_addr = inet_ntop (127, 0, 0, 1),
      bytes_received = to_int32 14,
      ttl = uint (recv_buffer (\<lambda>i. 0) echo_reply_datagram 1500 ! 8),
      sequence = 5, identifier = 777\<rparr>"
    by (simp add: send_ping_unfold Let_def loopback_recv loopback_ihl loopback_valid
          sizeof_icmphdr_def fd3_in_range result_of_def)
       (simp add: loopback_world_def quiet_world_def)
  then show ?thesis
    by (simp add: loopback_world_def quiet_world_def to_microseconds_def to_int32_def
          recv_buffer_nth echo_reply_datagram_def inet_ntop_def to_string.simps digit_char_def)
qed

lemma quiet_result:
  "result_of (send_ping LittleEndian quiet_world 3 (8, 8, 8, 8) 1234 1) =
     Some \<lparr>success = False, rtt_ms = 0, from_addr = [], bytes_received = 0, ttl = 0,
           sequence = 1, identifier = 1234\<rparr>"
  by (simp add: send_ping_unfold Let_def fd3_in_range result_of_def)
     (simp add: quiet_world_def)

lemma result_of_Inr: "result_of (Inr (r, w)) = Some r"
  by (simp add: result_of_def)

subsection \<open>The failure paths\<close>

text \<open>
  Claim C2, as the code has it. Let \<open>send_ping\<close> be called on a descriptor that \<open>FD_SET\<close>
  can hold, and let \<open>received\<close> and \<open>buffer\<close> be what \<open>recvfrom\<close> has to give. If the call takes
  a failure path, that is if one of its six checks fails (the send returns no positive
  count; \<open>select\<close> answers 0, the timeout; \<open>select\<close> answers an error; \<open>recvfrom\<close> returns
  no positive count; the datagram is shorter than the IP header and the ICMP header; the
  header does not validate), then it returns a result with \<open>success = false\<close>, \<open>rtt_ms = 0\<close>,
  an empty source address, \<open>bytes_received = 0\<close> and \<open>ttl = 0\<close>. Its \<open>sequence\<close> and
  \<open>identifier\<close> are not zero but the caller's arguments, which the function stores in the
  result before it does anything else.
\<close>

theorem send_ping_failure_fields:
  assumes sock: "0 \<le> sock" "sock < FD_SETSIZE"
    and rcv: "sys_recvfrom w sock BUFFER_SIZE = ((received, buffer, sender), w1)"
    and path:
      "sendto_ret w (sendto_calls w) \<le> 0
       \<or> select_ret w (select_calls w) = 0
       \<or> select_ret w (select_calls w) < 0
       \<or> received \<le> 0
       \<or> received < int (get_ip_header_length buffer + sizeof_icmphdr)
       \<or> \<not> validate_icmp_response e
             (icmphdr_at e buffer (get_ip_header_length buffer)) ident seqno"
  shows "result_of (send_ping e w sock dest ident seqno) =
           Some \<lparr>success = False, rtt_ms = 0, from_addr = [], bytes_received = 0, ttl = 0,
                 sequence = seqno, identifier = ident\<rparr>"
  using assms
  by (auto simp: send_ping_unfold Let_def result_of_def)

theorem send_ping_failure_fields_witness:
  "(0 :: int) \<le> 3 \<and> 3 < FD_SETSIZE
   \<and> sys_recvfrom quiet_world 3 BUFFER_SIZE =
       ((- 1, recv_buffer (\<lambda>i. 0) [] 1500, (0, 0, 0, 0)), quiet_world\<lparr>recvfrom_calls := 1\<rparr>)
   \<and> select_ret quiet_world (select_calls quiet_world) = 0
   \<and> result_of (send_ping LittleEndian quiet_world 3 (8, 8, 8, 8) 1234 1) =
       Some \<lparr>success = False, rtt_ms = 0, from_addr = [], bytes_received = 0, ttl = 0,
             sequence = 1, identifier = 1234\<rparr>"
proof -
  have sock: "(0 :: int) \<le> 3" "(3 :: int) < FD_SETSIZE"
    using fd3_in_range by simp_all
  have timeout: "select_ret quiet_world (select_calls quiet_world) = 0"
    by (simp add: quiet_world_def)
  then have path:
      "sendto_ret quiet_world (sendto_calls quiet_world) \<le> 0
       \<or> select_ret quiet_world (select_calls quiet_world) = 0
       \<or> select_ret quiet_world (select_calls quiet_world) < 0
       \<or> (- 1 :: int) \<le> 0
       \<or> (- 1 :: int) < int (get_ip_header_length (recv_buffer (\<lambda>i. 0) [] 1500)
                             + sizeof_icmphdr)
       \<or> \<not> validate_icmp_response LittleEndian
             (icmphdr_at LittleEndian (recv_buffer (\<lambda>i. 0) [] 1500)
                (get_ip_header_length (recv_buffer (\<lambda>i. 0) [] 1500))) 1234 1"
    by blast
  show ?thesis
    using sock timeout quiet_recv
      send_ping_failure_fields [OF sock quiet_recv path, where dest = "(8, 8, 8, 8)"]
    by simp
qed

text \<open>
  Claim C2 as it was stated asks for \<open>sequence = 0\<close> and \<open>identifier = 0\<close> on a failure
  path. A ping with identifier 1234 and sequence 1 that times out returns both values.
\<close>

theorem send_ping_failure_keeps_ids:
  "select_ret quiet_world (select_calls quiet_world) = 0
   \<and> result_of (send_ping LittleEndian quiet_world 3 (8, 8, 8, 8) 1234 1) =
       Some \<lparr>success = False, rtt_ms = 0, from_addr = [], bytes_received = 0, ttl = 0,
             sequence = 1, identifier = 1234\<rparr>
   \<and> result_of (send_ping LittleEndian quiet_world 3 (8, 8, 8, 8) 1234 1) \<noteq>
       Some \<lparr>success = False, rtt_ms = 0, from_addr = [], bytes_received = 0, ttl = 0,
             sequence = 0, identifier = 0\<rparr>"
  by (simp add: quiet_result) (simp add: quiet_world_def)

text \<open>
  When \<open>select\<close> answers 0 (the timeout passed with nothing to read) or a negative value,
  \<open>send_ping\<close> returns a failure without calling \<open>recvfrom\<close> and without waiting again.
  How long the call to \<open>select\<close> takes is the kernel's matter and is not part of the
  world of this model.
\<close>

lemma send_ping_timeout:
  assumes "0 \<le> sock" and "sock < FD_SETSIZE"
    and "select_ret w (select_calls w) \<le> 0"
  shows "\<exists>r w'. send_ping e w sock dest ident seqno = Inr (r, w')
           \<and> \<not> success r \<and> recvfrom_calls w' = recvfrom_calls w
           \<and> select_calls w' \<le> Suc (select_calls w)"
  using assms
  by (auto simp: send_ping_unfold Let_def)

text \<open>
  Claim C8. A call of \<open>send_ping\<close> on a descriptor that \<open>FD_SET\<close> can hold returns, and it
  calls \<open>recvfrom\<close> at most once. When the packet was sent, \<open>select\<close> reported the socket
  readable, a datagram was received and the header in it does not validate, the call
  returns \<open>success = false\<close> having called \<open>recvfrom\<close> exactly once and \<open>select\<close> exactly
  once: there is no second wait and no second receive.
\<close>

theorem send_ping_single_receive:
  assumes sock: "0 \<le> sock" "sock < FD_SETSIZE"
  shows "\<exists>r w'. send_ping e w sock dest ident seqno = Inr (r, w')
         \<and> recvfrom_calls w' \<le> Suc (recvfrom_calls w)
         \<and> (0 < sendto_ret w (sendto_calls w)
              \<and> 0 < select_ret w (select_calls w)
              \<and> sys_recvfrom w sock BUFFER_SIZE = ((received, buffer, sender), w1)
              \<and> 0 < received
              \<and> \<not> validate_icmp_response e
                      (icmphdr_at e buffer (get_ip_header_length buffer)) ident seqno
            \<longrightarrow> \<not> success r
                \<and> recvfrom_calls w' = Suc (recvfrom_calls w)
                \<and> select_calls w' = Suc (select_calls w))"
  using assms
  by (auto simp: send_ping_unfold Let_def)

theorem send_ping_single_receive_witness:
  "(0 :: int) \<le> 3 \<and> 3 < FD_SETSIZE
   \<and> 0 < sendto_ret loopback_world (sendto_calls loopback_world)
   \<and> 0 < select_ret loopback_world (select_calls loopback_world)
   \<and> sys_recvfrom loopback_world 3 BUFFER_SIZE =
       ((42, recv_buffer (\<lambda>i. 0) echo_reply_datagram 1500, (127, 0, 0, 1)),
        loopback_world\<lparr>recvfrom_calls := 1\<rparr>)
   \<and> \<not> validate_icmp_response LittleEndian
         (icmphdr_at LittleEndian (recv_buffer (\<lambda>i. 0) echo_reply_datagram 1500)
            (get_ip_header_length (recv_buffer (\<lambda>i. 0) echo_reply_datagram 1500))) 777 6
   \<and> (\<exists>r w'. send_ping LittleEndian loopback_world 3 (127, 0, 0, 1) 777 6 = Inr (r, w')
         \<and> \<not> success r
         \<and> recvfrom_calls w' = Suc (recvfrom_calls loopback_world)
         \<and> select_calls w' = Suc (select_calls loopback_world))"
proof -
  have sock: "(0 :: int) \<le> 3" "(3 :: int) < FD_SETSIZE"
    using fd3_in_range by simp_all
  have pre: "0 < sendto_ret loopback_world (sendto_calls loopback_world)
             \<and> 0 < select_ret loopback_world (select_calls loopback_world)"
    by (simp add: loopback_world_def quiet_world_def)
  have bad: "\<not> validate_icmp_response LittleEndian
         (icmphdr_at LittleEndian (recv_buffer (\<lambda>i. 0) echo_reply_datagram 1500)
            (get_ip_header_length (recv_buffer (\<lambda>i. 0) echo_reply_datagram 1500))) 777 6"
    by (simp add: loopback_ihl loopback_valid)
  from send_ping_single_receive [OF sock, where e = LittleEndian and w = loopback_world
        and dest = "(127, 0, 0, 1)" and ident = 777 and seqno = 6 and received = 42
        and buffer = "recv_buffer (\<lambda>i. 0) echo_reply_datagram 1500"
        and sender = "(127, 0, 0, 1)" and ?w1.0 = "loopback_world\<lparr>recvfrom_calls := 1\<rparr>"]
  obtain r w' where run: "send_ping LittleEndian loopback_world 3 (127, 0, 0, 1) 777 6 = Inr (r, w')"
    and after: "\<not> success r \<and> recvfrom_calls w' = Suc (recvfrom_calls loopback_world)
                \<and> select_calls w' = Suc (select_calls loopback_world)"
    using pre bad loopback_recv by auto
  show ?thesis
    using sock pre bad loopback_recv run after by blast
qed

subsection \<open>The success path\<close>

text \<open>
  Claim C10. When \<open>send_ping\<close>, called on a descriptor that \<open>FD_SET\<close> can hold, returns
  \<open>success = true\<close>, and \<open>received\<close> and \<open>buffer\<close> are what its call of \<open>recvfrom\<close> returned and
  filled, then \<open>bytes_received\<close> is the number of bytes received minus the IP header length
  minus 8 and is not negative, \<open>ttl\<close> lies between 0 and 255, and \<open>sequence\<close> and
  \<open>identifier\<close> are the caller's arguments. (The calls that \<open>send_ping\<close> makes before
  \<open>recvfrom\<close> leave the receive side of the world as it was, so the outcome of that call is
  the one \<open>recvfrom\<close> has in the starting world, as \<open>send_ping_unfold\<close> shows.)
\<close>

theorem send_ping_success_fields:
  assumes sock: "0 \<le> sock" "sock < FD_SETSIZE"
    and run: "send_ping e w sock dest ident seqno = Inr (r, w')" and ok: "success r"
    and rcv: "sys_recvfrom w sock BUFFER_SIZE = ((received, buffer, sender), w1)"
  shows "bytes_received r = received - int (get_ip_header_length buffer) - 8
         \<and> 0 \<le> bytes_received r
         \<and> 0 \<le> ttl r \<and> ttl r \<le> 255
         \<and> sequence r = seqno \<and> identifier r = ident"
proof -
  note u = send_ping_success_unfold [OF run ok rcv]
  have le: "received \<le> 1500"
    using sys_recvfrom_le [OF rcv] by (simp add: BUFFER_SIZE_def)
  have guard: "int (get_ip_header_length buffer) + 8 \<le> received"
    using u(4) by (simp add: sizeof_icmphdr_def)
  have "to_int32 (received - int (get_ip_header_length buffer) - 8)
          = received - int (get_ip_header_length buffer) - 8"
    using le guard by (intro to_int32_small) linarith+
  then have b: "bytes_received r = received - int (get_ip_header_length buffer) - 8"
    using u(6) by (simp add: sizeof_icmphdr_def)
  have "uint (buffer ! 8) < 256"
    using uint_bounded [of "buffer ! 8"] by simp
  then have t: "0 \<le> ttl r \<and> ttl r \<le> 255"
    using u(7) by simp
  show ?thesis
    using b guard t u(9) u(10) by simp
qed

theorem send_ping_success_fields_witness:
  "(0 :: int) \<le> 3 \<and> 3 < FD_SETSIZE
   \<and> sys_recvfrom loopback_world 3 BUFFER_SIZE =
       ((42, recv_buffer (\<lambda>i. 0) echo_reply_datagram 1500, (127, 0, 0, 1)),
        loopback_world\<lparr>recvfrom_calls := 1\<rparr>)
   \<and> (\<exists>r w'. send_ping LittleEndian loopback_world 3 (127, 0, 0, 1) 777 5 = Inr (r, w')
         \<and> success r
         \<and> bytes_received r
             = 42 - int (get_ip_header_length (recv_buffer (\<lambda>i. 0) echo_reply_datagram 1500)) - 8
         \<and> bytes_received r = 14
         \<and> 0 \<le> ttl r \<and> ttl r \<le> 255
         \<and> sequence r = 5 \<and> identifier r = 777)"
proof -
  have sock: "(0 :: int) \<le> 3" "(3 :: int) < FD_SETSIZE"
    using fd3_in_range by simp_all
  obtain r w' where run: "send_ping LittleEndian loopback_world 3 (127, 0, 0, 1) 777 5 = Inr (r, w')"
    using send_ping_defined [OF sock] by blast
  have ok: "success r"
    using loopback_result unfolding run result_of_Inr by simp
  have fields: "bytes_received r
             = 42 - int (get_ip_header_length (recv_buffer (\<lambda>i. 0) echo_reply_datagram 1500)) - 8
         \<and> 0 \<le> bytes_received r
         \<and> 0 \<le> ttl r \<and> ttl r \<le> 255
         \<and> sequence r = 5 \<and> identifier r = 777"
    by (rule send_ping_success_fields [OF sock run ok loopback_recv])
  then have "bytes_received r = 14"
    by (simp add: loopback_ihl)
  then show ?thesis
    using sock loopback_recv run ok fields by blast
qed

end
